theory Spec2Isabelle
  imports Main "HOL-Library.Sublist" "HOL-Library.AList" "HOL-Library.Char_ord"
    "HOL-Library.List_Lexorder"
begin

section \<open>Data model\<close>

text \<open>
  Values of the schemaless property mappings (what the JSON properties files hold):
  null, booleans, integers, strings, lists and nested mappings. A mapping is an association
  list in iteration order. Floating-point numbers are left out.
\<close>

datatype pyval =
    PNone
  | PBool bool
  | PInt int
  | PStr string
  | PList "pyval list"
  | PDict "(string \<times> pyval) list"

text \<open>
  The ways a call can end without returning. \<open>Fatal\<close> is a call of \<open>logging.critical\<close>;
  the others are uncaught Python exceptions.
\<close>

datatype fatal =
    CorruptedCacheEntry
  | CheckoutFailed
  | BuildPyNotFound
  | BuildFailed
  | MissingSrcDir
  | InvalidAnswer string
  | UnexplainedErrors nat

datatype error =
    Fatal fatal
  | KeyError string
  | AttributeError
  | TypeError
  | OSError
  | AssertionError
  | SystemExit

text \<open>
  Modelled from the spec: \<open>logging.critical\<close> under the handler that \<open>lab.tools\<close> installs
  (not among the sources) terminates the process ("fatal-log-as-abort"), so every
  \<open>logging.critical\<close> of the source is the end of the call, with the file system as it
  is at that moment.
\<close>

subsection \<open>File system\<close>

text \<open>
  A file system is the list of the paths that exist, each with its node: a directory, or
  a file with its content read as JSON (\<open>None\<close> when it does not parse). Paths are the
  strings the program passes, compared as written.
\<close>

datatype node = Dir | File "pyval option"

type_synonym fs = "(string \<times> node) list"

datatype event =
    Ran "string list" string int
  | Makedirs string
  | Rmtree string
  | Touch string
  | RemovePath string
  | Wrote string
  | Warned pyval pyval

record world =
  fs :: fs
  events :: "event list"

text \<open>
  The environment: what the program cannot compute. \<open>run_process argv cwd f\<close> is what an
  external process does to the file system \<open>f\<close> and the code it returns;
  \<open>properties_load\<close> is what the constructor of \<open>tools.Properties\<close> (not among the
  sources) reads for a file name: a mapping, or the error it ends with; \<open>run_filter\<close> is
  \<open>tools.RunFilter.apply\<close> (not among the sources); \<open>raw_input\<close> is the line the user
  types; \<open>relpath path start\<close> is \<open>os.path.relpath\<close>, which depends on the working
  directory of the process.
\<close>

record env =
  run_process :: "string list \<Rightarrow> string \<Rightarrow> fs \<Rightarrow> int \<times> fs"
  properties_load :: "string \<Rightarrow> fs \<Rightarrow> error + (string \<times> pyval) list"
  run_filter :: "(string \<times> pyval) list \<Rightarrow> error + (string \<times> pyval) list"
  raw_input :: string
  relpath :: "string \<Rightarrow> string \<Rightarrow> string"

definition path_exists :: "string \<Rightarrow> fs \<Rightarrow> bool" where
  "path_exists p f = (p \<in> set (map fst f))"

definition isdir :: "string \<Rightarrow> fs \<Rightarrow> bool" where
  "isdir p f = (map_of f p = Some Dir)"

text \<open>\<open>below p q\<close>: the path \<open>q\<close> is \<open>p\<close> itself or lies in the tree under \<open>p\<close>.\<close>

definition below :: "string \<Rightarrow> string \<Rightarrow> bool" where
  "below p q = (q = p \<or> prefix (p @ ''/'') q)"

text \<open>\<open>posixpath.join\<close> with two arguments, and with any number of them.\<close>

definition path_join :: "string \<Rightarrow> string \<Rightarrow> string" where
  "path_join a b =
     (if b \<noteq> [] \<and> hd b = CHR ''/'' then b
      else if a = [] \<or> last a = CHR ''/'' then a @ b
      else a @ ''/'' @ b)"

definition path_joins :: "string \<Rightarrow> string list \<Rightarrow> string" where
  "path_joins a ps = foldl path_join a ps"

definition basename :: "string \<Rightarrow> string" where
  "basename p = rev (takeWhile (\<lambda>c. c \<noteq> CHR ''/'') (rev p))"

text \<open>\<open>str.join\<close> on a list of strings.\<close>

fun str_join :: "string \<Rightarrow> string list \<Rightarrow> string" where
  "str_join sep [] = []"
| "str_join sep [x] = x"
| "str_join sep (x # y # ys) = x @ sep @ str_join sep (y # ys)"

text \<open>
  Modelled from the spec: \<open>tools.makedirs\<close>, \<open>tools.touch\<close> and \<open>tools.remove_path\<close> are not
  among the sources. The spec has the target directory created, the marker file written,
  and subtrees and files removed with failures not fatal.
\<close>

definition makedirs :: "string \<Rightarrow> world \<Rightarrow> world" where
  "makedirs p w =
     w\<lparr>fs := (if path_exists p (fs w) then fs w else fs w @ [(p, Dir)]),
       events := events w @ [Makedirs p]\<rparr>"

definition touch :: "string \<Rightarrow> world \<Rightarrow> world" where
  "touch p w =
     w\<lparr>fs := (if path_exists p (fs w) then fs w else fs w @ [(p, File None)]),
       events := events w @ [Touch p]\<rparr>"

definition remove_path :: "string \<Rightarrow> world \<Rightarrow> world" where
  "remove_path p w =
     w\<lparr>fs := filter (\<lambda>(q, n). \<not> below p q) (fs w),
       events := events w @ [RemovePath p]\<rparr>"

text \<open>\<open>shutil.rmtree\<close>: raises when the path does not exist.\<close>

definition rmtree :: "string \<Rightarrow> world \<Rightarrow> (error + unit) \<times> world" where
  "rmtree p w =
     (if path_exists p (fs w)
      then (Inr (), w\<lparr>fs := filter (\<lambda>(q, n). \<not> below p q) (fs w),
                       events := events w @ [Rmtree p]\<rparr>)
      else (Inl OSError, w))"

text \<open>
  \<open>tools.run_command\<close> and \<open>subprocess.call\<close>: run the process, return its code. The
  process is assumed to start (no exception from the call itself).
\<close>

definition run_command :: "env \<Rightarrow> string list \<Rightarrow> string \<Rightarrow> world \<Rightarrow> int \<times> world" where
  "run_command e argv cwd w =
     (let (rc, f) = run_process e argv cwd (fs w)
      in (rc, w\<lparr>fs := f, events := events w @ [Ran argv cwd rc]\<rparr>))"

subsection \<open>Globbing\<close>

text \<open>
  \<open>glob.glob\<close>: the pattern and each existing path are cut at the slashes and compared
  component by component. A component with a wildcard matches by \<open>fnmatch\<close> the non-empty
  names that do not start with a dot (unless the pattern does); any other component
  matches itself only. The wildcards are \<open>*\<close> and \<open>?\<close>; character classes are not
  modelled.
\<close>

fun split_path :: "string \<Rightarrow> string list" where
  "split_path [] = [[]]"
| "split_path (c # cs) =
     (if c = CHR ''/'' then [] # split_path cs
      else (case split_path cs of [] \<Rightarrow> [[c]] | x # xs \<Rightarrow> (c # x) # xs))"

fun fnmatch :: "string \<Rightarrow> string \<Rightarrow> bool" where
  "fnmatch [] [] = True"
| "fnmatch (c # cs) [] = False"
| "fnmatch [] (p # ps) = (p = CHR ''*'' \<and> fnmatch [] ps)"
| "fnmatch (c # cs) (p # ps) =
     (if p = CHR ''*'' then fnmatch (c # cs) ps \<or> fnmatch cs (p # ps)
      else (p = CHR ''?'' \<or> p = c) \<and> fnmatch cs ps)"

definition has_magic :: "string \<Rightarrow> bool" where
  "has_magic pat = (CHR ''*'' \<in> set pat \<or> CHR ''?'' \<in> set pat)"

definition comp_match :: "string \<Rightarrow> string \<Rightarrow> bool" where
  "comp_match pat name =
     (if has_magic pat
      then name \<noteq> [] \<and> (hd name = CHR ''.'' \<longrightarrow> hd pat = CHR ''.'') \<and> fnmatch name pat
      else name = pat)"

definition glob :: "string \<Rightarrow> fs \<Rightarrow> string list" where
  "glob pat f = filter (\<lambda>q. list_all2 comp_match (split_path pat) (split_path q)) (map fst f)"

section \<open>The build cache: downward/cached_revision.py\<close>

record cached_revision =
  repo :: string
  build_options :: "string list"
  local_rev :: string
  global_rev :: string
  summary :: string
  path_field :: "string option"

text \<open>The property \<open>path\<close>: asserts that the field has been set.\<close>

definition path :: "cached_revision \<Rightarrow> error + string" where
  "path self = (case path_field self of None \<Rightarrow> Inl AssertionError | Some p \<Rightarrow> Inr p)"

definition get_cached_revision_name :: "cached_revision \<Rightarrow> string" where
  "get_cached_revision_name self = str_join ''-'' ([global_rev self] @ build_options self)"

definition get_cached_path :: "cached_revision \<Rightarrow> string list \<Rightarrow> error + string" where
  "get_cached_path self rel_path =
     (case path self of Inl e \<Rightarrow> Inl e | Inr p \<Rightarrow> Inr (path_joins p rel_path))"

definition get_sentinel_file :: "cached_revision \<Rightarrow> error + string" where
  "get_sentinel_file self = get_cached_path self [''build_successful'']"

definition build_command :: "cached_revision \<Rightarrow> string list" where
  "build_command self = [''./build.py''] @ build_options self"

definition compile :: "env \<Rightarrow> cached_revision \<Rightarrow> world \<Rightarrow> (error + unit) \<times> world" where
  "compile e self w =
     (case path self of
        Inl err \<Rightarrow> (Inl err, w)
      | Inr p \<Rightarrow>
          if \<not> path_exists (path_join p ''build.py'') (fs w)
          then (Inl (Fatal BuildPyNotFound), w)
          else
            let (retcode, w1) = run_command e (build_command self) p w
            in if retcode = 0
               then (case get_sentinel_file self of
                       Inl err \<Rightarrow> (Inl err, w1)
                     | Inr s \<Rightarrow> (Inr (), touch s w1))
               else (Inl (Fatal BuildFailed), w1))"

text \<open>
  \<open>_cleanup\<close>. The call of \<open>strip\<close> names no working directory: the empty string
  stands for the one of the process.
\<close>

definition cleanup :: "env \<Rightarrow> cached_revision \<Rightarrow> world \<Rightarrow> (error + unit) \<times> world" where
  "cleanup e self w =
     (case path self of
        Inl err \<Rightarrow> (Inl err, w)
      | Inr p \<Rightarrow>
          let w1 = foldl (\<lambda>v g. if basename g \<noteq> ''bin'' then remove_path g v else v) w
                     (glob (path_joins p [''builds'', ''*'', ''*'']) (fs w));
              w2 = remove_path (path_join p ''build.py'') w1;
              binaries = filter (\<lambda>g. basename g \<in> set [''downward'', ''preprocess''])
                           (glob (path_joins p [''builds'', ''*'', ''bin'', ''*'']) (fs w2));
              (r3, w3) = run_command e ([''strip''] @ binaries) [] w2;
              (r4, w4) = run_command e [''tar'', ''-cf'', ''src.tar'', ''--remove-files'', ''src''] p w3;
              (r5, w5) = run_command e [''xz'', ''src.tar''] p w4
          in (Inr (), w5))"

definition checkout_command :: "cached_revision \<Rightarrow> string \<Rightarrow> string list" where
  "checkout_command self p =
     [''hg'', ''archive'', ''-r'', global_rev self]
       @ map (\<lambda>d. ''-X'' @ d) [''benchmarks'', ''experiments'', ''misc'']
       @ [p]"

definition cache :: "env \<Rightarrow> cached_revision \<Rightarrow> string \<Rightarrow> world \<Rightarrow> (error + cached_revision) \<times> world" where
  "cache e self0 revision_cache_dir w =
     (let p = path_join revision_cache_dir (get_cached_revision_name self0);
          self = self0\<lparr>path_field := Some p\<rparr>
      in if path_exists p (fs w)
         then (case get_sentinel_file self of
                 Inl err \<Rightarrow> (Inl err, w)
               | Inr s \<Rightarrow>
                   if \<not> path_exists s (fs w)
                   then (Inl (Fatal CorruptedCacheEntry), w)
                   else (Inr self, w))
         else
           let w1 = makedirs p w;
               (retcode, w2) = run_command e (checkout_command self p) (repo self) w1
           in if retcode \<noteq> 0
              then (case rmtree p w2 of
                      (Inl err, w3) \<Rightarrow> (Inl err, w3)
                    | (Inr u, w3) \<Rightarrow> (Inl (Fatal CheckoutFailed), w3))
              else (case compile e self w2 of
                      (Inl err, w3) \<Rightarrow> (Inl err, w3)
                    | (Inr u, w3) \<Rightarrow>
                        (case cleanup e self w3 of
                           (Inl err, w4) \<Rightarrow> (Inl err, w4)
                         | (Inr u', w4) \<Rightarrow> (Inr self, w4))))"

section \<open>The fetcher: lab/fetcher.py\<close>

subsection \<open>Strings and dynamic values\<close>

definition is_space :: "char \<Rightarrow> bool" where
  "is_space c = (c \<in> set [CHR '' '', CHR 0x09, CHR 0x0A, CHR 0x0B, CHR 0x0C, CHR 0x0D])"

definition str_strip :: "string \<Rightarrow> string" where
  "str_strip s = rev (dropWhile is_space (rev (dropWhile is_space s)))"

definition str_lower :: "string \<Rightarrow> string" where
  "str_lower s =
     map (\<lambda>c. if CHR ''A'' \<le> c \<and> c \<le> CHR ''Z'' then char_of (of_char c + (32::nat)) else c) s"

definition str_rstrip :: "char \<Rightarrow> string \<Rightarrow> string" where
  "str_rstrip x s = rev (dropWhile (\<lambda>c. c = x) (rev s))"

text \<open>Truth value of a Python object.\<close>

fun truthy :: "pyval \<Rightarrow> bool" where
  "truthy PNone = False"
| "truthy (PBool b) = b"
| "truthy (PInt n) = (n \<noteq> 0)"
| "truthy (PStr s) = (s \<noteq> [])"
| "truthy (PList vs) = (vs \<noteq> [])"
| "truthy (PDict kv) = (kv \<noteq> [])"

text \<open>\<open>obj.get(key, default)\<close>: only a mapping has the method.\<close>

fun py_get :: "pyval \<Rightarrow> string \<Rightarrow> pyval \<Rightarrow> error + pyval" where
  "py_get (PDict kv) k d = Inr (case map_of kv k of None \<Rightarrow> d | Some v \<Rightarrow> v)"
| "py_get v k d = Inl AttributeError"

text \<open>\<open>obj[key]\<close> with a string key, as the format field \<open>{props[run_dir]}\<close> evaluates it.\<close>

fun py_getitem :: "pyval \<Rightarrow> string \<Rightarrow> error + pyval" where
  "py_getitem (PDict kv) k = (case map_of kv k of None \<Rightarrow> Inl (KeyError k) | Some v \<Rightarrow> Inr v)"
| "py_getitem v k = Inl TypeError"

text \<open>\<open>obj.startswith(prefix)\<close>: only a string has the method.\<close>

fun py_startswith :: "pyval \<Rightarrow> string \<Rightarrow> error + bool" where
  "py_startswith (PStr s) pre = Inr (prefix pre s)"
| "py_startswith v pre = Inl AttributeError"

text \<open>
  \<open>sep.join(obj)\<close>: a list of strings is joined, a string is joined character by
  character, a mapping by its keys; anything else is a type error.
\<close>

fun as_str :: "pyval \<Rightarrow> string option" where
  "as_str (PStr s) = Some s"
| "as_str v = None"

fun py_join :: "string \<Rightarrow> pyval \<Rightarrow> error + string" where
  "py_join sep (PList vs) =
     (if list_all (\<lambda>v. as_str v \<noteq> None) vs
      then Inr (str_join sep (map (\<lambda>v. the (as_str v)) vs))
      else Inl TypeError)"
| "py_join sep (PStr s) = Inr (str_join sep (map (\<lambda>c. [c]) s))"
| "py_join sep (PDict kv) = Inr (str_join sep (map fst kv))"
| "py_join sep v = Inl TypeError"

subsection \<open>Properties\<close>

text \<open>
  A \<open>tools.Properties\<close> object: a mapping with the name of its file. The class is not
  among the sources. Without a file name it starts empty; with one, it holds what the
  environment's loader reads.
\<close>

record properties =
  filename :: "string option"
  items :: "(string \<times> pyval) list"

definition Properties :: "env \<Rightarrow> string option \<Rightarrow> fs \<Rightarrow> error + properties" where
  "Properties e name f =
     (case name of
        None \<Rightarrow> Inr \<lparr>filename = None, items = []\<rparr>
      | Some n \<Rightarrow>
          (case properties_load e n f of
             Inl err \<Rightarrow> Inl err
           | Inr kv \<Rightarrow> Inr \<lparr>filename = Some n, items = kv\<rparr>))"

text \<open>\<open>dict.update\<close>: each key of the other mapping is overwritten or inserted.\<close>

definition dict_update :: "properties \<Rightarrow> (string \<times> pyval) list \<Rightarrow> properties" where
  "dict_update self other =
     self\<lparr>items := foldl (\<lambda>acc (k, v). AList.update k v acc) (items self) other\<rparr>"

text \<open>
  Modelled from the spec: \<open>Properties.write\<close> is not among the sources. The spec has the
  destination properties file persisted: the file of the object now holds its mapping.
\<close>

definition properties_write :: "properties \<Rightarrow> world \<Rightarrow> (error + unit) \<times> world" where
  "properties_write self w =
     (case filename self of
        None \<Rightarrow> (Inl AssertionError, w)
      | Some n \<Rightarrow>
          (Inr (), w\<lparr>fs := AList.update n (File (Some (PDict (items self)))) (fs w),
                      events := events w @ [Wrote n]\<rparr>))"

subsection \<open>The functions of the module\<close>

definition check_eval_dir :: "env \<Rightarrow> string \<Rightarrow> world \<Rightarrow> (error + unit) \<times> world" where
  "check_eval_dir e eval_dir w =
     (if path_exists eval_dir (fs w)
      then
        let answer = str_lower (str_strip (raw_input e))
        in if answer = ''o'' then (Inr (), remove_path eval_dir w)
           else if answer = ''m'' then (Inr (), w)
           else if answer = ''c'' then (Inl SystemExit, w)
           else (Inl (Fatal (InvalidAnswer answer)), w)
      else (Inr (), w))"

text \<open>\<open>Fetcher.fetch_dir\<close>, with \<open>parsers\<close> already a list.\<close>

definition fetch_dir ::
  "env \<Rightarrow> string \<Rightarrow> string \<Rightarrow> string list \<Rightarrow> world \<Rightarrow> (error + properties) \<times> world" where
  "fetch_dir e run_dir eval_dir parsers w =
     (let prop_file = path_join run_dir ''properties'';
          w1 = foldl (\<lambda>v parser. snd (run_command e [relpath e parser run_dir] run_dir v)) w parsers
      in (Properties e (Some prop_file) (fs w1), w1))"

text \<open>
  The loop over the run directories in \<open>__call__\<close> (lines 112 to 117; the progress
  logging has no effect on the result).
\<close>

definition id_string :: "properties \<Rightarrow> error + string" where
  "id_string props =
     (case map_of (items props) ''id'' of
        None \<Rightarrow> Inl (KeyError ''id'')
      | Some v \<Rightarrow> py_join ''-'' v)"

fun collect ::
  "env \<Rightarrow> string list \<Rightarrow> string \<Rightarrow> string list \<Rightarrow> properties \<Rightarrow> world
     \<Rightarrow> (error + properties) \<times> world" where
  "collect e parsers eval_dir [] new_props w = (Inr new_props, w)"
| "collect e parsers eval_dir (run_dir # rest) new_props w =
     (case fetch_dir e run_dir eval_dir parsers w of
        (Inl err, w1) \<Rightarrow> (Inl err, w1)
      | (Inr props, w1) \<Rightarrow>
          (case id_string props of
             Inl err \<Rightarrow> (Inl err, w1)
           | Inr ids \<Rightarrow>
               collect e parsers eval_dir rest
                 (new_props\<lparr>items := AList.update ids (PDict (items props)) (items new_props)\<rparr>)
                 w1))"

text \<open>
  The first part of \<open>__call__\<close> (lines 84 to 119): it ends with the destination
  directory and the merged mapping. \<open>merge\<close> is the field of the fetcher, \<open>eval_dir\<close> the
  optional argument; the filter is the environment's.
\<close>

definition merge_runs ::
  "env \<Rightarrow> bool option \<Rightarrow> string \<Rightarrow> string option \<Rightarrow> string list \<Rightarrow> world
     \<Rightarrow> (error + string \<times> properties) \<times> world" where
  "merge_runs e merge src_dir eval_dir_arg parsers w =
     (if \<not> isdir src_dir (fs w) then (Inl (Fatal MissingSrcDir), w)
      else
        case Properties e (Some (path_join src_dir ''properties'')) (fs w) of
          Inl err \<Rightarrow> (Inl err, w)
        | Inr src_props \<Rightarrow>
            let fetch_from_eval_dir =
                  (''runs'' \<notin> set (map fst (items src_props)) \<or> suffix ''-eval'' src_dir);
                eval_dir =
                  (case eval_dir_arg of
                     None \<Rightarrow> str_rstrip CHR ''/'' src_dir @ ''-eval''
                   | Some d \<Rightarrow> if d \<noteq> [] then d else str_rstrip CHR ''/'' src_dir @ ''-eval'')
            in case (case merge of
                       None \<Rightarrow> check_eval_dir e eval_dir w
                     | Some False \<Rightarrow> (Inr (), remove_path eval_dir w)
                     | Some True \<Rightarrow> (Inr (), w)) of
                 (Inl err, w1) \<Rightarrow> (Inl err, w1)
               | (Inr u, w1) \<Rightarrow>
                   (case Properties e (Some (path_join eval_dir ''properties'')) (fs w1) of
                      Inl err \<Rightarrow> (Inl err, w1)
                    | Inr combined_props \<Rightarrow>
                        if fetch_from_eval_dir
                        then (case run_filter e (items src_props) of
                                Inl err \<Rightarrow> (Inl err, w1)
                              | Inr filtered \<Rightarrow>
                                  (Inr (eval_dir, dict_update combined_props filtered), w1))
                        else
                          let run_dirs = sort (glob (path_joins src_dir [''runs-*-*'', ''*'']) (fs w1))
                          in case collect e parsers eval_dir run_dirs
                                    \<lparr>filename = None, items = []\<rparr> w1 of
                               (Inl err, w2) \<Rightarrow> (Inl err, w2)
                             | (Inr new_props, w2) \<Rightarrow>
                                 (case run_filter e (items new_props) of
                                    Inl err \<Rightarrow> (Inl err, w2)
                                  | Inr filtered \<Rightarrow>
                                      (Inr (eval_dir, dict_update combined_props filtered), w2))))"

text \<open>
  One round of the loop over \<open>combined_props.values()\<close> (lines 123 to 127): an exception,
  or nothing, or the run directory and the error of the warning that is logged and
  counted.
\<close>

definition check_run :: "pyval \<Rightarrow> error + (pyval \<times> pyval) option" where
  "check_run props =
     (case py_get props ''error'' (PStr ''unexplained:attribute-error-missing'') of
        Inl err \<Rightarrow> Inl err
      | Inr error \<Rightarrow>
          if \<not> truthy error then Inr None
          else
            (case py_startswith error ''unexplained'' of
               Inl err \<Rightarrow> Inl err
             | Inr False \<Rightarrow> Inr None
             | Inr True \<Rightarrow>
                 (case py_getitem props ''run_dir'' of
                    Inl err \<Rightarrow> Inl err
                  | Inr run_dir \<Rightarrow> Inr (Some (run_dir, error)))))"

fun scan_errors :: "pyval list \<Rightarrow> nat \<Rightarrow> world \<Rightarrow> (error + nat) \<times> world" where
  "scan_errors [] unexplained_errors w = (Inr unexplained_errors, w)"
| "scan_errors (props # rest) unexplained_errors w =
     (case check_run props of
        Inl err \<Rightarrow> (Inl err, w)
      | Inr None \<Rightarrow> scan_errors rest unexplained_errors w
      | Inr (Some (run_dir, error)) \<Rightarrow>
          scan_errors rest (unexplained_errors + 1)
            (w\<lparr>events := events w @ [Warned run_dir error]\<rparr>))"

text \<open>The second part of \<open>__call__\<close> (lines 121 to 135).\<close>

definition report_errors :: "string \<Rightarrow> properties \<Rightarrow> world \<Rightarrow> (error + unit) \<times> world" where
  "report_errors eval_dir combined_props w =
     (case scan_errors (map snd (items combined_props)) 0 w of
        (Inl err, w1) \<Rightarrow> (Inl err, w1)
      | (Inr unexplained_errors, w1) \<Rightarrow>
          (case properties_write combined_props (makedirs eval_dir w1) of
             (Inl err, w2) \<Rightarrow> (Inl err, w2)
           | (Inr u, w2) \<Rightarrow>
               if unexplained_errors \<noteq> 0
               then (Inl (Fatal (UnexplainedErrors unexplained_errors)), w2)
               else (Inr (), w2)))"

text \<open>\<open>Fetcher.__call__\<close>.\<close>

definition fetcher_call ::
  "env \<Rightarrow> bool option \<Rightarrow> string \<Rightarrow> string option \<Rightarrow> string list \<Rightarrow> world
     \<Rightarrow> (error + unit) \<times> world" where
  "fetcher_call e merge src_dir eval_dir_arg parsers w =
     (case merge_runs e merge src_dir eval_dir_arg parsers w of
        (Inl err, w1) \<Rightarrow> (Inl err, w1)
      | (Inr (eval_dir, combined_props), w1) \<Rightarrow> report_errors eval_dir combined_props w1)"

section \<open>Concrete scenarios\<close>

text \<open>
  An environment in which \<open>hg archive\<close> puts a \<open>build.py\<close> into the directory named
  by its last argument and returns \<open>hg_rc\<close>, the build returns \<open>build_rc\<close> and every
  other process returns 0; a revision; a cache holding its checked-out entry.
\<close>

definition demo_env :: "int \<Rightarrow> int \<Rightarrow> env" where
  "demo_env hg_rc build_rc =
     \<lparr>run_process = (\<lambda>argv cwd f.
         if hd argv = ''hg'' then (hg_rc, f @ [(last argv @ ''/build.py'', File None)])
         else if hd argv = ''./build.py'' then (build_rc, f)
         else (0, f)),
      properties_load = (\<lambda>name f. Inr []),
      run_filter = Inr,
      raw_input = ''m'',
      relpath = (\<lambda>path start. path)\<rparr>"

definition demo_rev :: cached_revision where
  "demo_rev = \<lparr>repo = ''repo'', build_options = [''release32''], local_rev = ''tip'',
     global_rev = ''abc'', summary = ''s'', path_field = None\<rparr>"

definition demo_built :: cached_revision where
  "demo_built = demo_rev\<lparr>path_field := Some ''cache/abc-release32''\<rparr>"

definition demo_world :: world where
  "demo_world = \<lparr>fs = [(''cache'', Dir), (''cache/abc-release32'', Dir),
                        (''cache/abc-release32/build.py'', File None)], events = []\<rparr>"


text \<open>
  A loader for \<open>tools.Properties\<close>: it reads the mapping of a file that holds one and
  gives the empty mapping for a missing or unreadable file. An environment around a
  loader, in which processes change nothing, the filter keeps everything and the user
  answers "m". An evaluation directory with one run, and an experiment directory with
  three runs, none of them with a \<open>run_dir\<close> property.
\<close>

definition load_json :: "string \<Rightarrow> fs \<Rightarrow> error + (string \<times> pyval) list" where
  "load_json name f =
     (case map_of f name of
        Some (File (Some (PDict kv))) \<Rightarrow> Inr kv
      | _ \<Rightarrow> Inr [])"

definition fetch_env :: "(string \<Rightarrow> fs \<Rightarrow> error + (string \<times> pyval) list) \<Rightarrow> env" where
  "fetch_env loader =
     \<lparr>run_process = (\<lambda>argv cwd f. (0, f)),
      properties_load = loader,
      run_filter = Inr,
      raw_input = ''m'',
      relpath = (\<lambda>path start. path)\<rparr>"

definition eval_world :: world where
  "eval_world =
     \<lparr>fs = [(''exp-eval'', Dir),
            (''exp-eval/properties'',
               File (Some (PDict [(''d-p-c1'', PDict [(''id'', PList [PStr ''d'', PStr ''p'', PStr ''c1''])])])))],
      events = []\<rparr>"

definition exp_world :: world where
  "exp_world =
     \<lparr>fs = [(''exp'', Dir),
            (''exp/properties'', File (Some (PDict [(''runs'', PInt 3)]))),
            (''exp/runs-00001-00100'', Dir),
            (''exp/runs-00001-00100/00001'', Dir),
            (''exp/runs-00001-00100/00001/properties'',
               File (Some (PDict [(''id'', PList [PStr ''d'', PStr ''p'', PStr ''c1''])]))),
            (''exp/runs-00001-00100/00002'', Dir),
            (''exp/runs-00001-00100/00002/properties'',
               File (Some (PDict [(''id'', PList [PStr ''d'', PStr ''p'', PStr ''c2''])]))),
            (''exp/runs-00001-00100/00003'', Dir),
            (''exp/runs-00001-00100/00003/properties'',
               File (Some (PDict [(''id'', PList [PStr ''d'', PStr ''p'', PStr ''c3'']),
                                  (''error'', PStr ''some-error'')])))],
      events = []\<rparr>"


text \<open>The world after the first call of \<open>cache\<close> in a cache without the entry.\<close>

definition cached_world :: world where
  "cached_world =
     \<lparr>fs = [(''cache'', Dir), (''cache/abc-release32'', Dir),
            (''cache/abc-release32/build_successful'', File None)],
      events =
        [Makedirs ''cache/abc-release32'',
         Ran [''hg'', ''archive'', ''-r'', ''abc'', ''-Xbenchmarks'', ''-Xexperiments'', ''-Xmisc'',
              ''cache/abc-release32''] ''repo'' 0,
         Ran [''./build.py'', ''release32''] ''cache/abc-release32'' 0,
         Touch ''cache/abc-release32/build_successful'',
         RemovePath ''cache/abc-release32/build.py'',
         Ran [''strip''] [] 0,
         Ran [''tar'', ''-cf'', ''src.tar'', ''--remove-files'', ''src''] ''cache/abc-release32'' 0,
         Ran [''xz'', ''src.tar''] ''cache/abc-release32'' 0]\<rparr>"

text \<open>
  An environment in which the checkout delivers a \<open>build.py\<close> and a file named
  \<open>build_successful\<close>, and the build returns 2; the world after that checkout, and the
  world after the failed build.
\<close>

definition marker_env :: env where
  "marker_env =
     \<lparr>run_process = (\<lambda>argv cwd f.
         if hd argv = ''hg''
         then (0, f @ [(last argv @ ''/build.py'', File None),
                       (last argv @ ''/build_successful'', File None)])
         else if hd argv = ''./build.py'' then (2, f)
         else (0, f)),
      properties_load = (\<lambda>name f. Inr []),
      run_filter = Inr,
      raw_input = ''m'',
      relpath = (\<lambda>path start. path)\<rparr>"

definition checked_out_world :: world where
  "checked_out_world =
     \<lparr>fs = [(''cache'', Dir), (''cache/abc-release32'', Dir),
            (''cache/abc-release32/build.py'', File None),
            (''cache/abc-release32/build_successful'', File None)],
      events =
        [Makedirs ''cache/abc-release32'',
         Ran [''hg'', ''archive'', ''-r'', ''abc'', ''-Xbenchmarks'', ''-Xexperiments'', ''-Xmisc'',
              ''cache/abc-release32''] ''repo'' 0]\<rparr>"

definition shipped_world :: world where
  "shipped_world =
     checked_out_world\<lparr>events := events checked_out_world
        @ [Ran [''./build.py'', ''release32''] ''cache/abc-release32'' 2]\<rparr>"

section \<open>Properties of the build cache\<close>

lemma sentinel_of: "path_field self = Some p \<Longrightarrow>
  get_sentinel_file self = Inr (path_join p ''build_successful'')"
  by (simp add: get_sentinel_file_def get_cached_path_def path_def path_joins_def)

text \<open>
  C8: the derivation of the cache directory name is not injective. With the same global
  revision, the build options \<open>['a-b']\<close> and \<open>['a', 'b']\<close> differ, yet
  \<open>_get_cached_revision_name\<close> gives both the same name.
\<close>

theorem name_not_injective:
  "get_cached_revision_name \<lparr>repo = r, build_options = [''a-b''], local_rev = l,
       global_rev = g, summary = s, path_field = None\<rparr>
   = get_cached_revision_name \<lparr>repo = r, build_options = [''a'', ''b''], local_rev = l,
       global_rev = g, summary = s, path_field = None\<rparr>
   \<and> [''a-b''] \<noteq> [''a'', ''b'']"
  by (simp add: get_cached_revision_name_def)

text \<open>
  C2: when the target directory exists and the marker file \<open>build_successful\<close> in it
  does not, \<open>cache\<close> ends with the corrupted-entry fatal error and leaves the world as
  it was (nothing deleted, repaired or rebuilt, no command run), whatever else the file
  system holds; it does not return.
\<close>

theorem cache_corrupted_entry:
  assumes "p = path_join revision_cache_dir (get_cached_revision_name self)"
    and "path_exists p (fs w)"
    and "\<not> path_exists (path_join p ''build_successful'') (fs w)"
  shows "cache e self revision_cache_dir w = (Inl (Fatal CorruptedCacheEntry), w)"
  using assms by (simp add: cache_def Let_def sentinel_of)

theorem cache_corrupted_entry_witness:
  "cache (demo_env 0 0) demo_rev ''cache''
     \<lparr>fs = [(''cache/abc-release32'', Dir), (''cache/abc-release32/builds'', Dir)], events = []\<rparr>
   = (Inl (Fatal CorruptedCacheEntry),
      \<lparr>fs = [(''cache/abc-release32'', Dir), (''cache/abc-release32/builds'', Dir)], events = []\<rparr>)"
  by (rule cache_corrupted_entry [where p = "''cache/abc-release32''"])
     (simp_all add: path_join_def get_cached_revision_name_def demo_rev_def path_exists_def)

text \<open>
  C3: when the target directory does not exist and the checkout command returns a
  non-zero code, \<open>cache\<close> does not return and the target directory does not exist
  afterwards. When the checkout left the directory in place, the error is the fatal
  checkout failure, raised after \<open>rmtree\<close>, and nothing under the target remains.
\<close>

theorem cache_checkout_failure:
  assumes p: "p = path_join revision_cache_dir (get_cached_revision_name self)"
    and fresh: "\<not> path_exists p (fs w)"
    and hg: "run_process e (checkout_command (self\<lparr>path_field := Some p\<rparr>) p) (repo self)
               (fs (makedirs p w)) = (rc, f2)"
    and rc: "rc \<noteq> 0"
  shows "\<exists>err w'. cache e self revision_cache_dir w = (Inl err, w')
           \<and> \<not> path_exists p (fs w')
           \<and> (path_exists p f2 \<longrightarrow>
                err = Fatal CheckoutFailed
              \<and> (\<forall>q. below p q \<longrightarrow> \<not> path_exists q (fs w'))
              \<and> events w' = events w @ [Makedirs p,
                    Ran (checkout_command (self\<lparr>path_field := Some p\<rparr>) p) (repo self) rc,
                    Rmtree p])"
proof -
  let ?self = "self\<lparr>path_field := Some p\<rparr>"
  let ?w2 = "(makedirs p w)\<lparr>fs := f2,
     events := events (makedirs p w) @ [Ran (checkout_command ?self p) (repo self) rc]\<rparr>"
  have run: "run_command e (checkout_command ?self p) (repo self) (makedirs p w) = (rc, ?w2)"
    using hg by (simp add: run_command_def)
  have c: "cache e self revision_cache_dir w =
        (case rmtree p ?w2 of (Inl err, w3) \<Rightarrow> (Inl err, w3)
                            | (Inr u, w3) \<Rightarrow> (Inl (Fatal CheckoutFailed), w3))"
    using fresh rc run by (simp add: cache_def Let_def p [symmetric])
  show ?thesis
  proof (cases "path_exists p f2")
    case True
    then have "rmtree p ?w2 = (Inr (), ?w2\<lparr>fs := filter (\<lambda>(q, n). \<not> below p q) f2,
                           events := events ?w2 @ [Rmtree p]\<rparr>)"
      by (simp add: rmtree_def)
    with c True show ?thesis
      by (auto simp: path_exists_def below_def makedirs_def)
  next
    case False
    then have "rmtree p ?w2 = (Inl OSError, ?w2)"
      by (simp add: rmtree_def)
    with c False show ?thesis by simp
  qed
qed

theorem cache_checkout_failure_witness:
  "\<exists>err w'. cache (demo_env 1 0) demo_rev ''cache'' \<lparr>fs = [(''cache'', Dir)], events = []\<rparr> = (Inl err, w')
     \<and> \<not> path_exists ''cache/abc-release32'' (fs w')
     \<and> err = Fatal CheckoutFailed
     \<and> \<not> path_exists ''cache/abc-release32/build.py'' (fs w')"
proof -
  have a: "''cache/abc-release32'' = path_join ''cache'' (get_cached_revision_name demo_rev)"
    by (simp add: path_join_def get_cached_revision_name_def demo_rev_def)
  have b: "\<not> path_exists ''cache/abc-release32'' (fs \<lparr>fs = [(''cache'', Dir)], events = []\<rparr>)"
    by (simp add: path_exists_def)
  have c: "run_process (demo_env 1 0)
             (checkout_command (demo_rev\<lparr>path_field := Some ''cache/abc-release32''\<rparr>) ''cache/abc-release32'')
             (repo demo_rev) (fs (makedirs ''cache/abc-release32'' \<lparr>fs = [(''cache'', Dir)], events = []\<rparr>))
           = (1, [(''cache'', Dir), (''cache/abc-release32'', Dir),
                  (''cache/abc-release32/build.py'', File None)])"
    by (simp add: demo_env_def checkout_command_def makedirs_def path_exists_def)
  have d: "(1::int) \<noteq> 0" by simp
  have e: "path_exists ''cache/abc-release32'' [(''cache'', Dir), (''cache/abc-release32'', Dir),
                  (''cache/abc-release32/build.py'', File None)]"
    by (simp add: path_exists_def)
  have f: "below ''cache/abc-release32'' ''cache/abc-release32/build.py''"
    by (simp add: below_def)
  from cache_checkout_failure [OF a b c d] e f show ?thesis by blast
qed

text \<open>
  C7: when the build command returns a non-zero code, \<open>_compile\<close> ends with the fatal
  build failure; the file system is the one the build command left (the program removes
  nothing, the target directory included) and the only new event is the build command:
  the marker file is not written.
\<close>

theorem compile_build_failure:
  assumes "path_field self = Some p"
    and "path_exists (path_join p ''build.py'') (fs w)"
    and "run_process e (build_command self) p (fs w) = (rc, f1)"
    and "rc \<noteq> 0"
  shows "compile e self w =
           (Inl (Fatal BuildFailed),
            w\<lparr>fs := f1, events := events w @ [Ran (build_command self) p rc]\<rparr>)"
  using assms by (simp add: compile_def path_def run_command_def)

theorem compile_build_failure_witness:
  "path_field demo_built = Some ''cache/abc-release32''
   \<and> path_exists (path_join ''cache/abc-release32'' ''build.py'') (fs demo_world)
   \<and> run_process (demo_env 0 2) (build_command demo_built) ''cache/abc-release32'' (fs demo_world)
       = (2, fs demo_world)
   \<and> compile (demo_env 0 2) demo_built demo_world =
       (Inl (Fatal BuildFailed),
        demo_world\<lparr>fs := fs demo_world,
          events := events demo_world @ [Ran (build_command demo_built) ''cache/abc-release32'' 2]\<rparr>)
   \<and> path_exists ''cache/abc-release32'' (fs (snd (compile (demo_env 0 2) demo_built demo_world)))
   \<and> \<not> path_exists ''cache/abc-release32/build_successful''
         (fs (snd (compile (demo_env 0 2) demo_built demo_world)))"
proof -
  have a: "path_field demo_built = Some ''cache/abc-release32''"
    by (simp add: demo_built_def)
  have b: "path_exists (path_join ''cache/abc-release32'' ''build.py'') (fs demo_world)"
    by (simp add: demo_world_def path_exists_def path_join_def)
  have c: "run_process (demo_env 0 2) (build_command demo_built) ''cache/abc-release32'' (fs demo_world)
       = (2, fs demo_world)"
    by (simp add: demo_env_def build_command_def)
  have d: "(2::int) \<noteq> 0" by simp
  have e: "path_exists ''cache/abc-release32'' (fs demo_world)"
    "\<not> path_exists ''cache/abc-release32/build_successful'' (fs demo_world)"
    by (simp_all add: demo_world_def path_exists_def)
  from compile_build_failure [OF a b c d] a b c e show ?thesis by simp
qed

text \<open>
  C1, as the code has it: \<open>_compile\<close> is determined by the presence of \<open>build.py\<close>
  and the code the build command returns. The marker file is written if and only if
  \<open>build.py\<close> is there and the build command returns 0, and then the write is the
  event right after the build command, and the last one; otherwise the program writes
  nothing. When the marker is neither there before the call nor in the file system the
  build command leaves, it is present afterwards exactly when the build command
  returned 0.
\<close>

theorem compile_sentinel:
  assumes pf: "path_field self = Some p"
    and s: "s = path_join p ''build_successful''"
    and rp: "run_process e (build_command self) p (fs w) = (rc, f1)"
  shows "compile e self w =
           (if \<not> path_exists (path_join p ''build.py'') (fs w)
            then (Inl (Fatal BuildPyNotFound), w)
            else if rc = 0
            then (Inr (), touch s (w\<lparr>fs := f1, events := events w @ [Ran (build_command self) p rc]\<rparr>))
            else (Inl (Fatal BuildFailed),
                  w\<lparr>fs := f1, events := events w @ [Ran (build_command self) p rc]\<rparr>))
       \<and> (\<exists>new. events (snd (compile e self w)) = events w @ new
             \<and> (Touch s \<in> set new \<longleftrightarrow> path_exists (path_join p ''build.py'') (fs w) \<and> rc = 0)
             \<and> (Touch s \<in> set new \<longrightarrow> new = [Ran (build_command self) p 0, Touch s]))
       \<and> (\<not> path_exists s (fs w) \<and> \<not> path_exists s f1 \<longrightarrow>
             (path_exists s (fs (snd (compile e self w)))
                \<longleftrightarrow> path_exists (path_join p ''build.py'') (fs w) \<and> rc = 0))"
proof -
  let ?w1 = "w\<lparr>fs := f1, events := events w @ [Ran (build_command self) p rc]\<rparr>"
  let ?b = "path_exists (path_join p ''build.py'') (fs w)"
  have eq: "compile e self w =
           (if \<not> ?b then (Inl (Fatal BuildPyNotFound), w)
            else if rc = 0 then (Inr (), touch s ?w1)
            else (Inl (Fatal BuildFailed), ?w1))"
    using pf rp by (simp add: compile_def path_def run_command_def sentinel_of s)
  have ev: "\<exists>new. events (snd (compile e self w)) = events w @ new
             \<and> (Touch s \<in> set new \<longleftrightarrow> ?b \<and> rc = 0)
             \<and> (Touch s \<in> set new \<longrightarrow> new = [Ran (build_command self) p 0, Touch s])"
  proof (cases "?b")
    case False
    then show ?thesis by (intro exI [of _ "[]"]) (simp add: eq)
  next
    case True
    show ?thesis
    proof (cases "rc = 0")
      case True
      with \<open>?b\<close> show ?thesis
        by (intro exI [of _ "[Ran (build_command self) p 0, Touch s]"]) (simp add: eq touch_def)
    next
      case False
      with \<open>?b\<close> show ?thesis
        by (intro exI [of _ "[Ran (build_command self) p rc]"]) (simp add: eq)
    qed
  qed
  have st: "\<not> path_exists s (fs w) \<and> \<not> path_exists s f1 \<longrightarrow>
             (path_exists s (fs (snd (compile e self w))) \<longleftrightarrow> ?b \<and> rc = 0)"
    by (auto simp: eq touch_def path_exists_def)
  from eq ev st show ?thesis by blast
qed

theorem compile_sentinel_witness:
  "path_field demo_built = Some ''cache/abc-release32''
   \<and> run_process (demo_env 0 0) (build_command demo_built) ''cache/abc-release32'' (fs demo_world)
       = (0, fs demo_world)
   \<and> path_exists (path_join ''cache/abc-release32'' ''build.py'') (fs demo_world)
   \<and> \<not> path_exists ''cache/abc-release32/build_successful'' (fs demo_world)
   \<and> compile (demo_env 0 0) demo_built demo_world =
       (Inr (), touch ''cache/abc-release32/build_successful''
          (demo_world\<lparr>fs := fs demo_world,
             events := events demo_world @ [Ran (build_command demo_built) ''cache/abc-release32'' 0]\<rparr>))
   \<and> path_exists ''cache/abc-release32/build_successful''
         (fs (snd (compile (demo_env 0 0) demo_built demo_world)))"
proof -
  have a: "path_field demo_built = Some ''cache/abc-release32''"
    by (simp add: demo_built_def)
  have b: "''cache/abc-release32/build_successful'' = path_join ''cache/abc-release32'' ''build_successful''"
    by (simp add: path_join_def)
  have c: "run_process (demo_env 0 0) (build_command demo_built) ''cache/abc-release32'' (fs demo_world)
       = (0, fs demo_world)"
    by (simp add: demo_env_def build_command_def)
  have d: "path_exists (path_join ''cache/abc-release32'' ''build.py'') (fs demo_world)"
    by (simp add: demo_world_def path_exists_def path_join_def)
  have e: "\<not> path_exists ''cache/abc-release32/build_successful'' (fs demo_world)"
    by (simp add: demo_world_def path_exists_def)
  from compile_sentinel [OF a b c] a c d e show ?thesis
    by (simp add: touch_def path_exists_def)
qed

text \<open>
  C1, as the claim states it, fails in its last part: the presence of the marker does
  not imply a successful build in every reachable state. When the checkout delivers a
  file named \<open>build_successful\<close> and the build returns 2, \<open>_compile\<close> ends with the
  fatal build failure and the marker is present; the next call of \<open>cache\<close> returns the
  entry as a hit.
\<close>

theorem shipped_marker_outlives_failed_build:
  "compile marker_env demo_built checked_out_world = (Inl (Fatal BuildFailed), shipped_world)
   \<and> run_process marker_env (build_command demo_built) ''cache/abc-release32'' (fs checked_out_world)
       = (2, fs checked_out_world)
   \<and> path_exists ''cache/abc-release32/build_successful'' (fs shipped_world)
   \<and> cache marker_env demo_rev ''cache'' \<lparr>fs = [(''cache'', Dir)], events = []\<rparr>
       = (Inl (Fatal BuildFailed), shipped_world)
   \<and> cache marker_env demo_rev ''cache'' shipped_world = (Inr demo_built, shipped_world)"
  by code_simp

section \<open>Properties of the fetcher\<close>

lemma scan_errors_fs: "scan_errors xs n w = (r, w') \<Longrightarrow> fs w' = fs w"
proof (induction xs arbitrary: n w)
  case Nil
  then show ?case by simp
next
  case (Cons x xs)
  then show ?case
    by (auto split: sum.splits option.splits prod.splits)
qed

lemma scan_errors_append:
  "scan_errors (xs @ ys) n w =
     (case scan_errors xs n w of
        (Inl err, w') \<Rightarrow> (Inl err, w')
      | (Inr m, w') \<Rightarrow> scan_errors ys m w')"
  by (induction xs arbitrary: n w) (auto split: sum.splits option.splits prod.splits)

lemma scan_errors_ok:
  "\<forall>v\<in>set xs. \<exists>r. check_run v = Inr r \<Longrightarrow> \<exists>m w'. scan_errors xs n w = (Inr m, w')"
proof (induction xs arbitrary: n w)
  case Nil
  then show ?case by simp
next
  case (Cons x xs)
  then obtain r where r: "check_run x = Inr r" by auto
  from Cons have rest: "\<forall>v\<in>set xs. \<exists>r. check_run v = Inr r" by simp
  show ?case
  proof (cases r)
    case None
    with r Cons.IH [OF rest] show ?thesis by simp
  next
    case (Some a)
    obtain rd er where "a = (rd, er)" by (cases a)
    with Some r Cons.IH [OF rest] show ?thesis by simp
  qed
qed

text \<open>
  When the loop raises nothing, its count is the number of runs whose round logs a
  warning.
\<close>

lemma scan_errors_count:
  "scan_errors xs n w = (Inr m, w') \<Longrightarrow>
   m = n + length (filter (\<lambda>v. \<exists>a. check_run v = Inr (Some a)) xs)"
proof (induction xs arbitrary: n w)
  case Nil
  then show ?case by simp
next
  case (Cons x xs)
  show ?case
  proof (cases "check_run x")
    case (Inl err)
    with Cons.prems show ?thesis by simp
  next
    case (Inr r)
    show ?thesis
    proof (cases r)
      case None
      with Inr Cons show ?thesis by simp
    next
      case (Some a)
      obtain rd er where a: "a = (rd, er)" by (cases a)
      from Cons.prems Inr Some a
      have "scan_errors xs (n + 1) (w\<lparr>events := events w @ [Warned rd er]\<rparr>) = (Inr m, w')"
        by simp
      from Cons.IH [OF this] Inr Some show ?thesis by simp
    qed
  qed
qed

text \<open>
  When the loop over the runs raises nothing, the destination directory is made and the
  merged mapping written before the fatal error for a non-zero count.
\<close>

lemma report_errors_writes_before_fatal:
  assumes "scan_errors (map snd (items c)) 0 w = (Inr n, w1)"
    and "filename c = Some name"
  shows "report_errors eval_dir c w =
           (if n \<noteq> 0 then Inl (Fatal (UnexplainedErrors n)) else Inr (),
            (makedirs eval_dir w1)
              \<lparr>fs := AList.update name (File (Some (PDict (items c)))) (fs (makedirs eval_dir w1)),
               events := events (makedirs eval_dir w1) @ [Wrote name]\<rparr>)"
  using assms by (simp add: report_errors_def properties_write_def)

lemma check_run_no_run_dir:
  assumes "map_of kv ''run_dir'' = None"
    and "map_of kv ''error'' = None \<or> (\<exists>s. map_of kv ''error'' = Some (PStr s) \<and> prefix ''unexplained'' s)"
  shows "check_run (PDict kv) = Inl (KeyError ''run_dir'')"
  using assms by (auto simp: check_run_def)

text \<open>
  C9: when the merged mapping holds a run without a \<open>run_dir\<close> property whose \<open>error\<close>
  property is absent or starts with "unexplained", and the runs before it raise nothing,
  the loop over the runs raises \<open>KeyError\<close> for \<open>run_dir\<close> while it formats the
  warning: \<open>__call__\<close> ends with that error in the world reached after the runs before
  it, so the run is neither logged nor counted and the file system is the one before
  the loop: the destination properties file is not written.
\<close>

theorem unexplained_run_keyerror:
  assumes mr: "merge_runs e merge src_dir eval_dir_arg parsers w = (Inr (eval_dir, combined), w1)"
    and runs: "map snd (items combined) = pre @ PDict kv # post"
    and pre: "\<forall>v\<in>set pre. \<exists>r. check_run v = Inr r"
    and nodir: "map_of kv ''run_dir'' = None"
    and err: "map_of kv ''error'' = None
              \<or> (\<exists>s. map_of kv ''error'' = Some (PStr s) \<and> prefix ''unexplained'' s)"
  shows "\<exists>n w'. scan_errors pre 0 w1 = (Inr n, w')
           \<and> fetcher_call e merge src_dir eval_dir_arg parsers w = (Inl (KeyError ''run_dir''), w')
           \<and> fs w' = fs w1"
proof -
  from scan_errors_ok [OF pre] obtain n w' where s: "scan_errors pre 0 w1 = (Inr n, w')"
    by blast
  have c: "check_run (PDict kv) = Inl (KeyError ''run_dir'')"
    by (rule check_run_no_run_dir [OF nodir err])
  have "scan_errors (map snd (items combined)) 0 w1 = (Inl (KeyError ''run_dir''), w')"
    by (simp add: runs scan_errors_append s c)
  then have "fetcher_call e merge src_dir eval_dir_arg parsers w = (Inl (KeyError ''run_dir''), w')"
    by (simp add: fetcher_call_def mr report_errors_def)
  with s scan_errors_fs [OF s] show ?thesis by blast
qed

theorem unexplained_run_keyerror_witness:
  "\<exists>n w'. scan_errors [] 0 eval_world = (Inr n, w')
     \<and> fetcher_call (fetch_env load_json) (Some True) ''exp-eval'' (Some ''out'') [] eval_world
         = (Inl (KeyError ''run_dir''), w')
     \<and> fs w' = fs eval_world"
proof -
  have a: "merge_runs (fetch_env load_json) (Some True) ''exp-eval'' (Some ''out'') [] eval_world
     = (Inr (''out'', \<lparr>filename = Some ''out/properties'',
            items = [(''d-p-c1'', PDict [(''id'', PList [PStr ''d'', PStr ''p'', PStr ''c1''])])]\<rparr>),
        eval_world)"
    by code_simp
  have b: "map snd (items \<lparr>filename = Some ''out/properties'',
            items = [(''d-p-c1'', PDict [(''id'', PList [PStr ''d'', PStr ''p'', PStr ''c1''])])]\<rparr>)
       = [] @ PDict [(''id'', PList [PStr ''d'', PStr ''p'', PStr ''c1''])] # []"
    by simp
  have c: "\<forall>v\<in>set []. \<exists>r. check_run v = Inr r" by simp
  have d: "map_of [(''id'', PList [PStr ''d'', PStr ''p'', PStr ''c1''])] ''run_dir'' = None"
    by simp
  have e: "map_of [(''id'', PList [PStr ''d'', PStr ''p'', PStr ''c1''])] ''error'' = None
      \<or> (\<exists>s. map_of [(''id'', PList [PStr ''d'', PStr ''p'', PStr ''c1''])] ''error'' = Some (PStr s)
             \<and> prefix ''unexplained'' s)"
    by simp
  from unexplained_run_keyerror [OF a b c d e] show ?thesis .
qed

text \<open>
  C10: a run whose \<open>error\<close> property is present and falsy (the empty string, for one) is
  neither logged nor counted: its round of the loop does nothing, and the loop over a
  list of runs gives the same count and the same warnings with the run as without it.
\<close>

theorem falsy_error_not_counted:
  assumes "map_of kv ''error'' = Some v" and "\<not> truthy v"
  shows "check_run (PDict kv) = Inr None
       \<and> scan_errors (pre @ PDict kv # post) n w = scan_errors (pre @ post) n w"
proof -
  have c: "check_run (PDict kv) = Inr None"
    using assms by (simp add: check_run_def)
  have "scan_errors (PDict kv # post) m w' = scan_errors post m w'" for m w'
    by (simp add: c)
  then have "scan_errors (pre @ PDict kv # post) n w = scan_errors (pre @ post) n w"
    by (simp add: scan_errors_append split: prod.splits sum.splits)
  with c show ?thesis by simp
qed

theorem falsy_error_not_counted_witness:
  "map_of [(''run_dir'', PStr ''r1''), (''error'', PStr [])] ''error'' = Some (PStr [])
   \<and> \<not> truthy (PStr [])
   \<and> check_run (PDict [(''run_dir'', PStr ''r1''), (''error'', PStr [])]) = Inr None
   \<and> scan_errors ([] @ PDict [(''run_dir'', PStr ''r1''), (''error'', PStr [])] # []) 0 eval_world
       = scan_errors ([] @ []) 0 eval_world"
proof -
  have a: "map_of [(''run_dir'', PStr ''r1''), (''error'', PStr [])] ''error'' = Some (PStr [])"
    by simp
  have b: "\<not> truthy (PStr [])" by simp
  from falsy_error_not_counted [OF a b, of "[]" "[]" 0 eval_world] a b show ?thesis by blast
qed

text \<open>
  C6: the claim is that every run without an \<open>error\<close> property is counted and that the
  merged mapping is written before the fatal error. On the experiment directory with the
  three runs \<open>{id: [d, p, c1]}\<close>, \<open>{id: [d, p, c2]}\<close> and
  \<open>{id: [d, p, c3], error: 'some-error'}\<close> the call ends with \<open>KeyError\<close> for \<open>run_dir\<close>
  instead, in an unchanged world: nothing is counted and nothing is written.
\<close>

theorem spec_scenario_keyerror:
  "fetcher_call (fetch_env load_json) (Some True) ''exp'' None [] exp_world
     = (Inl (KeyError ''run_dir''), exp_world)"
  by code_simp






section \<open>Idempotence of the build cache\<close>

text \<open>
  The paths that \<open>_cleanup\<close> removes have more slashes than the target directory and
  its marker file, or are the build script: the clean-up spares both.
\<close>

lemma split_path_nonempty: "split_path x \<noteq> []"
  by (induction x) (auto split: list.splits)

lemma length_split_path: "length (split_path x) = Suc (count_list x CHR ''/'')"
  by (induction x) (auto split: list.splits simp: split_path_nonempty)

lemma count_list_prefix: "prefix a q \<Longrightarrow> count_list a c \<le> count_list q c"
  by (auto simp: prefix_def)

lemma below_count: "below g q \<Longrightarrow> count_list g CHR ''/'' \<le> count_list q CHR ''/''"
  by (auto simp: below_def prefix_def)

lemma glob_count:
  "g \<in> set (glob pat f) \<Longrightarrow> count_list g CHR ''/'' = count_list pat CHR ''/''"
proof -
  assume "g \<in> set (glob pat f)"
  then have "list_all2 comp_match (split_path pat) (split_path g)"
    by (simp add: glob_def)
  then have "length (split_path pat) = length (split_path g)"
    by (rule list_all2_lengthD)
  then show ?thesis by (simp add: length_split_path)
qed

lemma join_forms:
  obtains P where "path_join p ''build_successful'' = P @ ''build_successful''"
    and "path_join p ''build.py'' = P @ ''build.py''"
    and "path_joins p [''builds'', ''*'', ''*''] = P @ ''builds/*/*''"
    and "prefix p P"
proof (cases "p = [] \<or> last p = CHR ''/''")
  case True
  then show ?thesis
    by (intro that [of p]) (auto simp: path_join_def path_joins_def)
next
  case False
  then show ?thesis
    by (intro that [of "p @ ''/''"]) (auto simp: path_join_def path_joins_def)
qed

lemma glob_spares_entry:
  assumes g: "g \<in> set (glob (path_joins p [''builds'', ''*'', ''*'']) f)"
  shows "\<not> below g p" and "\<not> below g (path_join p ''build_successful'')"
proof -
  obtain P where s: "path_join p ''build_successful'' = P @ ''build_successful''"
    and pat: "path_joins p [''builds'', ''*'', ''*''] = P @ ''builds/*/*''"
    and pre: "prefix p P"
    by (rule join_forms)
  have cg: "count_list g CHR ''/'' = count_list P CHR ''/'' + 2"
    using glob_count [OF g] by (simp add: pat)
  have cp: "count_list p CHR ''/'' \<le> count_list P CHR ''/''"
    by (rule count_list_prefix [OF pre])
  show "\<not> below g p"
    using below_count [of g p] cg cp by auto
  show "\<not> below g (path_join p ''build_successful'')"
    using below_count [of g "P @ ''build_successful''"] cg by (auto simp: s)
qed

lemma build_py_spares_entry:
  shows "\<not> below (path_join p ''build.py'') p"
    and "\<not> below (path_join p ''build.py'') (path_join p ''build_successful'')"
proof -
  obtain P where s: "path_join p ''build_successful'' = P @ ''build_successful''"
    and b: "path_join p ''build.py'' = P @ ''build.py''"
    and pre: "prefix p P"
    by (rule join_forms)
  from pre have len: "length p \<le> length P" by (rule prefix_length_le)
  show "\<not> below (path_join p ''build.py'') p"
  proof
    assume "below (path_join p ''build.py'') p"
    then have "length (P @ ''build.py'') \<le> length p"
      by (auto simp: below_def b dest: prefix_length_le)
    with len show False by simp
  qed
  show "\<not> below (path_join p ''build.py'') (path_join p ''build_successful'')"
    by (simp add: below_def s b)
qed

lemma remove_path_exists:
  "path_exists q (fs (remove_path g w)) \<longleftrightarrow> path_exists q (fs w) \<and> \<not> below g q"
  by (auto simp: remove_path_def path_exists_def)

lemma prune_keeps:
  "path_exists q (fs w) \<Longrightarrow> \<forall>g\<in>set gs. \<not> below g q \<Longrightarrow>
   path_exists q (fs (foldl (\<lambda>v g. if basename g \<noteq> ''bin'' then remove_path g v else v) w gs))"
  by (induction gs arbitrary: w) (auto simp: remove_path_exists)

lemma run_command_keeps:
  assumes "\<forall>argv cwd f. path_exists q f \<longrightarrow> path_exists q (snd (run_process e argv cwd f))"
    and "path_exists q (fs w)"
  shows "path_exists q (fs (snd (run_command e argv cwd w)))"
proof -
  obtain rc f where r: "run_process e argv cwd (fs w) = (rc, f)"
    by (cases "run_process e argv cwd (fs w)")
  with assms have "path_exists q f" by (metis snd_conv)
  with r show ?thesis by (simp add: run_command_def)
qed

lemma cleanup_keeps:
  assumes pf: "path_field self = Some p"
    and keep: "\<forall>argv cwd f. path_exists q f \<longrightarrow> path_exists q (snd (run_process e argv cwd f))"
    and q: "q = p \<or> q = path_join p ''build_successful''"
    and ex: "path_exists q (fs w)"
  shows "\<exists>w'. cleanup e self w = (Inr (), w') \<and> path_exists q (fs w')"
proof -
  let ?w1 = "foldl (\<lambda>v g. if basename g \<noteq> ''bin'' then remove_path g v else v) w
               (glob (path_joins p [''builds'', ''*'', ''*'']) (fs w))"
  let ?w2 = "remove_path (path_join p ''build.py'') ?w1"
  have "\<forall>g\<in>set (glob (path_joins p [''builds'', ''*'', ''*'']) (fs w)). \<not> below g q"
    using q glob_spares_entry by blast
  then have e1: "path_exists q (fs ?w1)"
    by (rule prune_keeps [OF ex])
  have "\<not> below (path_join p ''build.py'') q"
    using q build_py_spares_entry by blast
  with e1 have e2: "path_exists q (fs ?w2)"
    by (simp add: remove_path_exists)
  let ?bin = "filter (\<lambda>g. basename g \<in> set [''downward'', ''preprocess''])
                (glob (path_joins p [''builds'', ''*'', ''bin'', ''*'']) (fs ?w2))"
  let ?w3 = "snd (run_command e ([''strip''] @ ?bin) [] ?w2)"
  let ?w4 = "snd (run_command e [''tar'', ''-cf'', ''src.tar'', ''--remove-files'', ''src''] p ?w3)"
  let ?w5 = "snd (run_command e [''xz'', ''src.tar''] p ?w4)"
  have e3: "path_exists q (fs ?w3)" by (rule run_command_keeps [OF keep e2])
  have e4: "path_exists q (fs ?w4)" by (rule run_command_keeps [OF keep e3])
  have e5: "path_exists q (fs ?w5)" by (rule run_command_keeps [OF keep e4])
  have "cleanup e self w = (Inr (), ?w5)"
    by (simp add: cleanup_def path_def pf Let_def split: prod.splits)
  with e5 show ?thesis by blast
qed

lemma touch_exists:
  "path_exists q (fs (touch s w)) \<longleftrightarrow> q = s \<or> path_exists q (fs w)"
  by (auto simp: touch_def path_exists_def)

lemma makedirs_exists:
  "path_exists q (fs (makedirs p w)) \<longleftrightarrow> q = p \<or> path_exists q (fs w)"
  by (auto simp: makedirs_def path_exists_def)

lemma compile_ok_complete:
  assumes pf: "path_field self = Some p"
    and run: "compile e self w = (Inr u, w3)"
    and keep: "\<forall>argv cwd f. path_exists p f \<longrightarrow> path_exists p (snd (run_process e argv cwd f))"
    and ex: "path_exists p (fs w)"
  shows "path_exists p (fs w3) \<and> path_exists (path_join p ''build_successful'') (fs w3)"
proof -
  let ?w1 = "snd (run_command e (build_command self) p w)"
  have k: "path_exists p (fs ?w1)" by (rule run_command_keeps [OF keep ex])
  from run pf have "w3 = touch (path_join p ''build_successful'') ?w1"
    by (auto simp: compile_def path_def sentinel_of split: if_splits prod.splits)
  with k show ?thesis by (simp add: touch_exists)
qed

lemma cache_hit:
  assumes "p = path_join root (get_cached_revision_name self)"
    and "path_exists p (fs w)"
    and "path_exists (path_join p ''build_successful'') (fs w)"
  shows "cache e self root w = (Inr (self\<lparr>path_field := Some p\<rparr>), w)"
  using assms by (simp add: cache_def Let_def sentinel_of)

lemma cache_returns_complete:
  assumes p: "p = path_join root (get_cached_revision_name self)"
    and first: "cache e self root w = (Inr self1, w1)"
    and keep_p: "\<forall>argv cwd f. path_exists p f \<longrightarrow> path_exists p (snd (run_process e argv cwd f))"
    and keep_s: "\<forall>argv cwd f. path_exists (path_join p ''build_successful'') f \<longrightarrow>
                   path_exists (path_join p ''build_successful'') (snd (run_process e argv cwd f))"
  shows "self1 = self\<lparr>path_field := Some p\<rparr> \<and> path_exists p (fs w1)
         \<and> path_exists (path_join p ''build_successful'') (fs w1)"
proof (cases "path_exists p (fs w)")
  case True
  with first show ?thesis
    by (auto simp: cache_def Let_def sentinel_of p [symmetric] split: if_splits)
next
  case False
  let ?self = "self\<lparr>path_field := Some p\<rparr>"
  let ?s = "path_join p ''build_successful''"
  have pf: "path_field ?self = Some p" by simp
  let ?r2 = "run_command e (checkout_command ?self p) (repo ?self) (makedirs p w)"
  let ?w2 = "snd ?r2"
  have e2: "path_exists p (fs ?w2)"
    by (rule run_command_keeps [OF keep_p]) (simp add: makedirs_exists)
  from first False obtain u w3 where
    c: "compile e ?self ?w2 = (Inr u, w3)" and
    rest: "(case cleanup e ?self w3 of (Inl err, w4) \<Rightarrow> (Inl err, w4)
            | (Inr u', w4) \<Rightarrow> (Inr ?self, w4)) = (Inr self1, w1)"
    by (auto simp: cache_def Let_def p [symmetric] split: if_splits prod.splits sum.splits)
  from compile_ok_complete [OF pf c keep_p e2]
  have e3: "path_exists p (fs w3)" "path_exists ?s (fs w3)" by simp_all
  from cleanup_keeps [OF pf keep_p _ e3(1)] obtain w4 where
    cl: "cleanup e ?self w3 = (Inr (), w4)" and e4: "path_exists p (fs w4)" by blast
  from cleanup_keeps [OF pf keep_s _ e3(2)] cl have e4s: "path_exists ?s (fs w4)" by auto
  from rest cl have "self1 = ?self" "w1 = w4" by simp_all
  with e4 e4s show ?thesis by simp
qed

text \<open>
  C5: when a call of \<open>cache\<close> returns, a second call with the same key (global revision
  and build options) and the same cache root, in the world the first call left, returns
  with the same path and leaves that world as it is: no event is added, so there is no
  second checkout and no second build. The external processes are taken not to delete
  the target directory or the marker file.
\<close>

theorem cache_idempotent:
  assumes p: "p = path_join root (get_cached_revision_name self)"
    and first: "cache e self root w = (Inr self1, w1)"
    and keep_p: "\<forall>argv cwd f. path_exists p f \<longrightarrow> path_exists p (snd (run_process e argv cwd f))"
    and keep_s: "\<forall>argv cwd f. path_exists (path_join p ''build_successful'') f \<longrightarrow>
                   path_exists (path_join p ''build_successful'') (snd (run_process e argv cwd f))"
    and key: "global_rev self2 = global_rev self" "build_options self2 = build_options self"
  shows "path self1 = Inr p
       \<and> cache e self2 root w1 = (Inr (self2\<lparr>path_field := Some p\<rparr>), w1)
       \<and> path (self2\<lparr>path_field := Some p\<rparr>) = Inr p"
proof -
  from cache_returns_complete [OF p first keep_p keep_s]
  have s1: "self1 = self\<lparr>path_field := Some p\<rparr>" and ep: "path_exists p (fs w1)"
    and es: "path_exists (path_join p ''build_successful'') (fs w1)" by simp_all
  have p2: "p = path_join root (get_cached_revision_name self2)"
    by (simp add: p get_cached_revision_name_def key)
  from cache_hit [OF p2 ep es] s1 show ?thesis by (simp add: path_def)
qed

theorem cache_idempotent_witness:
  "cache (demo_env 0 0) demo_rev ''cache'' \<lparr>fs = [(''cache'', Dir)], events = []\<rparr>
     = (Inr demo_built, cached_world)
   \<and> path demo_built = Inr ''cache/abc-release32''
   \<and> cache (demo_env 0 0) demo_rev ''cache'' cached_world
       = (Inr (demo_rev\<lparr>path_field := Some ''cache/abc-release32''\<rparr>), cached_world)"
proof -
  have p: "''cache/abc-release32'' = path_join ''cache'' (get_cached_revision_name demo_rev)"
    by code_simp
  have first: "cache (demo_env 0 0) demo_rev ''cache'' \<lparr>fs = [(''cache'', Dir)], events = []\<rparr>
     = (Inr demo_built, cached_world)"
    by code_simp
  have keep: "\<forall>argv cwd f. path_exists q f \<longrightarrow> path_exists q (snd (run_process (demo_env 0 0) argv cwd f))" for q
    by (auto simp: demo_env_def path_exists_def)
  have key: "global_rev demo_rev = global_rev demo_rev" "build_options demo_rev = build_options demo_rev"
    by simp_all
  from cache_idempotent [OF p first keep keep key] first show ?thesis by blast
qed


end
